theory Spec2Isabelle
  imports Complex_Main
begin

section \<open>Python values: errors, arrays, tables\<close>

text \<open>
  The exceptions the modelled code can raise. A function that can raise returns
  \<open>py_error + 'a\<close>, with \<open>Inl\<close> for the exception. Samples of a signal are
  modelled as reals (finite floats, rounding left out); a missing value (NaN) of a
  float column is \<open>None\<close>.
\<close>

datatype py_error =
    IndexError
  | KeyError string
  | NameError string
  | ValueError string
  | UnboundLocalError string

definition bind_err :: "py_error + 'a \<Rightarrow> ('a \<Rightarrow> py_error + 'b) \<Rightarrow> py_error + 'b" where
  "bind_err m f = (case m of Inl e \<Rightarrow> Inl e | Inr x \<Rightarrow> f x)"

text \<open>A pandas DataFrame: its columns in order, each with its name.\<close>

type_synonym 'a table = "(string \<times> 'a list) list"

text \<open>\<open>df[key]\<close>: pandas raises KeyError for a column that is absent.\<close>

definition df_getitem :: "'a table \<Rightarrow> string \<Rightarrow> py_error + 'a list" where
  "df_getitem df key = (case map_of df key of None \<Rightarrow> Inl (KeyError key) | Some c \<Rightarrow> Inr c)"

text \<open>\<open>df[key] = column\<close>: replaces the column in place, or appends a new one.\<close>

fun df_setitem :: "'a table \<Rightarrow> string \<Rightarrow> 'a list \<Rightarrow> 'a table" where
  "df_setitem [] key c = [(key, c)]"
| "df_setitem ((k, c') # df) key c =
     (if k = key then (k, c) # df else (k, c') # df_setitem df key c)"

text \<open>\<open>len(df)\<close>: the number of rows.\<close>

definition df_len :: "'a table \<Rightarrow> nat" where
  "df_len df = (case df of [] \<Rightarrow> 0 | (k, c) # _ \<Rightarrow> length c)"

text \<open>\<open>try: body except NameError: handler\<close>: only a NameError reaches the handler.\<close>

definition try_except_NameError :: "py_error + 'a \<Rightarrow> py_error + 'a \<Rightarrow> py_error + 'a" where
  "try_except_NameError body handler =
     (case body of Inl (NameError m) \<Rightarrow> handler | _ \<Rightarrow> body)"

text \<open>\<open>np.where(mask)[0]\<close>: the positions at which the mask holds, ascending.\<close>

definition np_where :: "bool list \<Rightarrow> nat list" where
  "np_where cond = filter (\<lambda>i. cond ! i) [0..<length cond]"

text \<open>\<open>a[idx]\<close> with an integer index array: IndexError for a position out of range.\<close>

definition take_idx :: "'a list \<Rightarrow> nat list \<Rightarrow> py_error + 'a list" where
  "take_idx a idx =
     (if \<forall>i \<in> set idx. i < length a then Inr (map (\<lambda>i. a ! i) idx) else Inl IndexError)"

text \<open>\<open>a[beg:end]\<close> for nonnegative bounds.\<close>

definition slice :: "'a list \<Rightarrow> nat \<Rightarrow> nat \<Rightarrow> 'a list" where
  "slice a beg end = drop beg (take end a)"

text \<open>\<open>np.diff(a)\<close>: \<open>a[1:] - a[:-1]\<close>, empty for fewer than two elements.\<close>

definition np_diff :: "real list \<Rightarrow> real list" where
  "np_diff a = map2 (\<lambda>x y. y - x) (butlast a) (drop 1 a)"

text \<open>\<open>np.mean(a)\<close>: NaN (here \<open>None\<close>) on the empty array.\<close>

definition np_mean :: "real list \<Rightarrow> real option" where
  "np_mean a = (if a = [] then None else Some (sum_list a / real (length a)))"

text \<open>\<open>np.delete(a, idx)\<close> for positions in range: the elements at the other positions.\<close>

definition np_delete :: "'a list \<Rightarrow> nat list \<Rightarrow> 'a list" where
  "np_delete a idx = map (\<lambda>i. a ! i) (filter (\<lambda>i. i \<notin> set idx) [0..<length a])"

text \<open>\<open>np.argmax\<close> and \<open>np.argmin\<close>: the first position of the largest (smallest)
  element; ValueError on an empty array.\<close>

fun arg_best :: "(real \<Rightarrow> real \<Rightarrow> bool) \<Rightarrow> nat \<Rightarrow> real \<Rightarrow> nat \<Rightarrow> real list \<Rightarrow> nat" where
  "arg_best better best bv i [] = best"
| "arg_best better best bv i (x # xs) =
     (if better x bv then arg_best better i x (Suc i) xs
      else arg_best better best bv (Suc i) xs)"

definition np_argmax :: "real list \<Rightarrow> py_error + nat" where
  "np_argmax a = (case a of [] \<Rightarrow> Inl (ValueError ''attempt to get argmax of an empty sequence'')
                  | x # xs \<Rightarrow> Inr (arg_best (\<lambda>u v. u > v) 0 x 1 xs))"

definition np_argmin :: "real list \<Rightarrow> py_error + nat" where
  "np_argmin a = (case a of [] \<Rightarrow> Inl (ValueError ''attempt to get argmin of an empty sequence'')
                  | x # xs \<Rightarrow> Inr (arg_best (\<lambda>u v. u < v) 0 x 1 xs))"

text \<open>\<open>a[0::2]\<close>: every second element, from the first.\<close>

fun every_other :: "'a list \<Rightarrow> 'a list" where
  "every_other [] = []"
| "every_other [x] = [x]"
| "every_other (x # y # xs) = x # every_other xs"

section \<open>Extrema Locator: \<open>_rsp_findpeaks_extrema\<close>\<close>

datatype startx = Rise | Fall

definition risex :: "real list \<Rightarrow> nat list" where
  "risex rsp_cleaned =
     (let greater = map (\<lambda>x. x > 0) rsp_cleaned;
          smaller = map (\<lambda>x. x < 0) rsp_cleaned
      in np_where (map2 (\<and>) (butlast smaller) (drop 1 greater)))"

definition fallx :: "real list \<Rightarrow> nat list" where
  "fallx rsp_cleaned =
     (let greater = map (\<lambda>x. x > 0) rsp_cleaned;
          smaller = map (\<lambda>x. x < 0) rsp_cleaned
      in np_where (map2 (\<and>) (butlast greater) (drop 1 smaller)))"

text \<open>The choice of \<open>argextreme\<close> in the loop body, at loop counter \<open>i\<close>. When neither
  branch set \<open>startx\<close>, reading it raises.\<close>

definition argextreme :: "startx option \<Rightarrow> nat \<Rightarrow> real list \<Rightarrow> py_error + nat" where
  "argextreme sx i seg =
     (case sx of
        None \<Rightarrow> Inl (UnboundLocalError ''startx'')
      | Some Rise \<Rightarrow> (if (i + 1) mod 2 \<noteq> 0 then np_argmax seg else np_argmin seg)
      | Some Fall \<Rightarrow> (if (i + 1) mod 2 \<noteq> 0 then np_argmin seg else np_argmax seg))"

text \<open>The loop \<open>for i in range(len(allx) - 1)\<close>, given the crossings from position
  \<open>i\<close> on.\<close>

fun extrema_loop :: "real list \<Rightarrow> startx option \<Rightarrow> nat \<Rightarrow> nat list \<Rightarrow> py_error + nat list" where
  "extrema_loop rsp_cleaned sx i (beg # end # rest) =
     bind_err (argextreme sx i (slice rsp_cleaned beg end)) (\<lambda>extreme.
     bind_err (extrema_loop rsp_cleaned sx (Suc i) (end # rest)) (\<lambda>extrema.
     Inr ((beg + extreme) # extrema)))"
| "extrema_loop rsp_cleaned sx i [b] = Inr []"
| "extrema_loop rsp_cleaned sx i [] = Inr []"

definition rsp_findpeaks_extrema :: "real list \<Rightarrow> py_error + nat list" where
  "rsp_findpeaks_extrema rsp_cleaned =
     (let rx = risex rsp_cleaned; fx = fallx rsp_cleaned in
      if rx = [] \<or> fx = [] then Inl IndexError
      else
        let sx = (if hd rx < hd fx then Some Rise
                  else if hd fx < hd rx then Some Fall else None);
            allx = sort (rx @ fx)
        in extrema_loop rsp_cleaned sx 0 allx)"

section \<open>Outlier Filter: \<open>_rsp_findpeaks_outliers\<close>\<close>

text \<open>\<open>np.where(vertical_diff > average_diff * outlier_threshold)[0]\<close>: a comparison
  with NaN is false.\<close>

definition min_diff :: "real list \<Rightarrow> real \<Rightarrow> nat list" where
  "min_diff amps outlier_threshold =
     (let vertical_diff = map abs (np_diff amps);
          average_diff = np_mean vertical_diff
      in np_where (map (\<lambda>d. case average_diff of None \<Rightarrow> False
                                | Some m \<Rightarrow> d > m * outlier_threshold) vertical_diff))"

text \<open>The thresholding step: \<open>extrema = extrema[min_diff]\<close>. The locator's
  \<open>np.asarray([])\<close> is a float array, which cannot index.\<close>

definition outliers_threshold :: "real list \<Rightarrow> nat list \<Rightarrow> real \<Rightarrow> py_error + nat list" where
  "outliers_threshold rsp_cleaned extrema outlier_threshold =
     (if extrema = [] then Inl IndexError
      else bind_err (take_idx rsp_cleaned extrema) (\<lambda>amps.
           take_idx extrema (min_diff amps outlier_threshold)))"

text \<open>The alternation repair: the positions to remove.\<close>

definition removeext :: "real list \<Rightarrow> nat list" where
  "removeext amplitudes =
     (let extdiffs = map sgn (np_diff amplitudes);
          extdiffs = map2 (+) (butlast extdiffs) (drop 1 extdiffs)
      in map (\<lambda>i. i + 1) (np_where (map (\<lambda>s. s \<noteq> 0) extdiffs)))"

definition rsp_findpeaks_outliers ::
    "real list \<Rightarrow> nat list \<Rightarrow> real \<Rightarrow> py_error + (nat list \<times> real list)" where
  "rsp_findpeaks_outliers rsp_cleaned extrema outlier_threshold =
     bind_err (outliers_threshold rsp_cleaned extrema outlier_threshold) (\<lambda>extrema.
     bind_err (take_idx rsp_cleaned extrema) (\<lambda>amplitudes.
     let rem = removeext amplitudes
     in Inr (np_delete extrema rem, np_delete amplitudes rem)))"

section \<open>Alternation Sanitizer: \<open>_rsp_findpeaks_sanitize\<close>\<close>

definition rsp_findpeaks_sanitize ::
    "nat list \<Rightarrow> real list \<Rightarrow> py_error + (nat list \<times> nat list)" where
  "rsp_findpeaks_sanitize extrema amplitudes =
     (if length amplitudes < 2 then Inl IndexError
      else
        bind_err (if amplitudes ! 0 > amplitudes ! 1
                  then (if extrema = [] then Inl IndexError else Inr (drop 1 extrema))
                  else Inr extrema) (\<lambda>extrema.
        bind_err (if last amplitudes < amplitudes ! (length amplitudes - 2)
                  then (if extrema = [] then Inl IndexError else Inr (butlast extrema))
                  else Inr extrema) (\<lambda>extrema.
        let peaks = every_other (drop 1 extrema);
            troughs = every_other (butlast extrema)
        in Inr (peaks, troughs))))"

section \<open>Methods\<close>

record peakinfo =
  RSP_Peaks :: "nat list"
  RSP_Troughs :: "nat list"

definition rsp_findpeaks_khodadad :: "real list \<Rightarrow> real \<Rightarrow> py_error + peakinfo" where
  "rsp_findpeaks_khodadad rsp_cleaned outlier_threshold =
     bind_err (rsp_findpeaks_extrema rsp_cleaned) (\<lambda>extrema.
     bind_err (rsp_findpeaks_outliers rsp_cleaned extrema outlier_threshold) (\<lambda>(extrema, amplitudes).
     bind_err (rsp_findpeaks_sanitize extrema amplitudes) (\<lambda>(peaks, troughs).
     Inr \<lparr>RSP_Peaks = peaks, RSP_Troughs = troughs\<rparr>)))"

definition rsp_findpeaks_biosppy :: "real list \<Rightarrow> py_error + peakinfo" where
  "rsp_findpeaks_biosppy rsp_cleaned = rsp_findpeaks_khodadad rsp_cleaned 0"

section \<open>Table construction and respiration phase\<close>

text \<open>
  Modelled from the spec: \<open>_signals_from_peakinfo\<close> (module
  \<open>signal.signal_from_indices\<close>) is not among the sources. The specification's table
  construction: two binary indicator series of length N, 1 at each peak index and at
  each trough index respectively, 0 elsewhere.
\<close>

definition signal_from_indices :: "nat list \<Rightarrow> nat \<Rightarrow> real option list" where
  "signal_from_indices indices n = map (\<lambda>j. if j \<in> set indices then Some 1 else Some 0) [0..<n]"

definition signals_from_peakinfo :: "peakinfo \<Rightarrow> nat list \<Rightarrow> nat \<Rightarrow> real option table" where
  "signals_from_peakinfo info peak_indices n =
     [(''RSP_Peaks'', signal_from_indices (RSP_Peaks info) n),
      (''RSP_Troughs'', signal_from_indices (RSP_Troughs info) n)]"

text \<open>\<open>a[idx] = v\<close> for an index array.\<close>

definition assign_at :: "'a list \<Rightarrow> nat list \<Rightarrow> 'a \<Rightarrow> 'a list" where
  "assign_at a idx v = fold (\<lambda>i b. b[i := v]) idx a"

text \<open>\<open>pd.Series(a).fillna(method="pad")\<close>: each missing value takes the last value
  before it; leading missing values stay.\<close>

fun pad_from :: "'a option \<Rightarrow> 'a option list \<Rightarrow> 'a option list" where
  "pad_from prev [] = []"
| "pad_from prev (None # xs) = prev # pad_from prev xs"
| "pad_from prev (Some v # xs) = Some v # pad_from (Some v) xs"

definition fillna_pad :: "'a option list \<Rightarrow> 'a option list" where
  "fillna_pad a = pad_from None a"

definition rsp_findpeaks_phase :: "real option table \<Rightarrow> py_error + real option list" where
  "rsp_findpeaks_phase signals =
     bind_err (df_getitem signals ''RSP_Peaks'') (\<lambda>pk.
     bind_err (df_getitem signals ''RSP_Troughs'') (\<lambda>tr.
     let inspiration = replicate (df_len signals) None;
         inspiration = assign_at inspiration (np_where (map (\<lambda>x. x = Some 1) pk)) (Some 0);
         inspiration = assign_at inspiration (np_where (map (\<lambda>x. x = Some 1) tr)) (Some 1);
         notnan = np_where (map (\<lambda>x. x \<noteq> None) inspiration)
     in if notnan = [] then Inl IndexError
        else
          let last_element = last notnan
          in Inr (take last_element (fillna_pad inspiration) @ drop last_element inspiration)))"

text \<open>The series after the two assignments of \<open>_rsp_findpeaks_phase\<close>, written
  pointwise: the trough mark is assigned last and wins.\<close>

definition marked_series :: "nat list \<Rightarrow> nat list \<Rightarrow> nat \<Rightarrow> real option list" where
  "marked_series pk tr n =
     map (\<lambda>j. if j \<in> set tr then Some 1 else if j \<in> set pk then Some 0 else None) [0..<n]"

section \<open>Respiration Extrema Pipeline: \<open>rsp_findpeaks\<close>\<close>

datatype rsp_input = Sequence "real list" | DataFrame "real table"

text \<open>\<open>str.lower\<close> on ASCII letters.\<close>

definition lower_char :: "char \<Rightarrow> char" where
  "lower_char c =
     (case map_of (zip ''ABCDEFGHIJKLMNOPQRSTUVWXYZ'' ''abcdefghijklmnopqrstuvwxyz'') c of
        Some d \<Rightarrow> d | None \<Rightarrow> c)"

definition lower :: "string \<Rightarrow> string" where
  "lower s = map lower_char s"

text \<open>Lines 60 to 67: the column of a table, the sequence itself otherwise.\<close>

definition retrieve_column :: "rsp_input \<Rightarrow> py_error + real list" where
  "retrieve_column rsp_cleaned =
     (case rsp_cleaned of
        Sequence s \<Rightarrow> Inr s
      | DataFrame df \<Rightarrow>
          try_except_NameError (df_getitem df ''RSP_Clean'')
            (try_except_NameError (df_getitem df ''RSP_Raw'')
               (df_getitem df ''RSP'')))"

definition method_error :: string where
  "method_error = ''NeuroKit error: rsp_findpeaks(): 'method' should be one of 'khodadad2018' or 'biosppy'.''"

definition rsp_findpeaks ::
    "rsp_input \<Rightarrow> string \<Rightarrow> real \<Rightarrow> py_error + (real option table \<times> peakinfo)" where
  "rsp_findpeaks rsp_cleaned method outlier_threshold =
     bind_err (retrieve_column rsp_cleaned) (\<lambda>cleaned.
     let method = lower method in
     bind_err (if method \<in> set [''khodadad'', ''khodadad2018'']
               then rsp_findpeaks_khodadad cleaned outlier_threshold
               else if method = ''biosppy'' then rsp_findpeaks_biosppy cleaned
               else Inl (ValueError method_error)) (\<lambda>info.
     let signals = signals_from_peakinfo info (RSP_Peaks info) (length cleaned) in
     bind_err (rsp_findpeaks_phase signals) (\<lambda>inspiration.
     Inr (df_setitem signals ''RSP_Inspiration'' inspiration, info))))"

section \<open>Multi-Signal Orchestrator: \<open>bio_process\<close>\<close>

type_synonym channel = "real option list"

datatype ecg_arg = Vector channel | Frame "real option table"

text \<open>
  The per-channel pipelines and the input sanitizer are imported from other modules
  (\<open>ecg_process\<close>, \<open>rsp_process\<close>, \<open>eda_process\<close>, \<open>emg_process\<close>,
  \<open>sanitize_input\<close>) and are parameters here: each pipeline maps a channel and a
  sampling rate to a table and an information mapping, or raises.
\<close>

record 'v collaborators =
  sanitize_input :: "channel \<Rightarrow> string \<Rightarrow> py_error + channel"
  ecg_process :: "channel \<Rightarrow> nat \<Rightarrow> py_error + (real option table \<times> (string \<rightharpoonup> 'v))"
  rsp_process :: "channel \<Rightarrow> nat \<Rightarrow> py_error + (real option table \<times> (string \<rightharpoonup> 'v))"
  eda_process :: "channel \<Rightarrow> nat \<Rightarrow> py_error + (real option table \<times> (string \<rightharpoonup> 'v))"
  emg_process :: "channel \<Rightarrow> nat \<Rightarrow> py_error + (real option table \<times> (string \<rightharpoonup> 'v))"

text \<open>\<open>pd.concat([a, b], axis=1)\<close> on positional row indices: the columns of \<open>a\<close>, then
  those of \<open>b\<close>, the shorter ones filled with missing values.\<close>

definition pad_rows :: "nat \<Rightarrow> 'a option list \<Rightarrow> 'a option list" where
  "pad_rows n c = c @ replicate (n - length c) None"

definition pd_concat :: "'a option table \<Rightarrow> 'a option table \<Rightarrow> 'a option table" where
  "pd_concat a b =
     (let n = max (df_len a) (df_len b) in map (\<lambda>(k, c). (k, pad_rows n c)) (a @ b))"

definition message :: string where
  "message = ''NeuroKit error: bio_process(): we expect the user to provide a vector, i.e., a one-dimensional array (such as a list of values).''"

text \<open>Lines 88 to 117: a table as first argument is unpacked into the channels and the
  pass-through table, replacing the other arguments.\<close>

definition unpack ::
    "ecg_arg option \<Rightarrow> channel option \<Rightarrow> channel option \<Rightarrow> channel option \<Rightarrow>
     real option table option \<Rightarrow>
     channel option \<times> channel option \<times> channel option \<times> channel option \<times> real option table option" where
  "unpack ecg rsp eda emg keep =
     (case ecg of
        None \<Rightarrow> (None, rsp, eda, emg, keep)
      | Some (Vector v) \<Rightarrow> (Some v, rsp, eda, emg, keep)
      | Some (Frame data) \<Rightarrow>
          (let rsp = map_of data ''RSP'';
               eda = map_of data ''EDA'';
               emg = map_of data ''EMG'';
               ecg = (case map_of data ''ECG'' of Some c \<Rightarrow> Some c | None \<Rightarrow> map_of data ''EKG'');
               cols = [''ECG'', ''EKG'', ''RSP'', ''EDA'', ''EMG''];
               keep_keys = filter (\<lambda>key. key \<notin> set cols) (map fst data);
               keep = (if length keep_keys \<noteq> 0
                       then Some (filter (\<lambda>(k, c). k \<in> set keep_keys) data) else None)
           in (ecg, rsp, eda, emg, keep)))"

text \<open>One channel block (lines 123 to 127, and the three after it): skipped for an
  absent channel; otherwise sanitize, process, update the mapping, append the columns.\<close>

definition channel_block ::
    "'v collaborators \<Rightarrow> (channel \<Rightarrow> nat \<Rightarrow> py_error + (real option table \<times> (string \<rightharpoonup> 'v))) \<Rightarrow>
     channel option \<Rightarrow> nat \<Rightarrow> real option table \<times> (string \<rightharpoonup> 'v) \<Rightarrow>
     py_error + (real option table \<times> (string \<rightharpoonup> 'v))" where
  "channel_block co process ch sampling_rate acc =
     (case ch of
        None \<Rightarrow> Inr acc
      | Some x \<Rightarrow>
          bind_err (sanitize_input co x message) (\<lambda>x.
          bind_err (process x sampling_rate) (\<lambda>(signals, info).
          Inr (pd_concat (fst acc) signals, snd acc ++ info))))"

definition bio_process ::
    "'v collaborators \<Rightarrow> ecg_arg option \<Rightarrow> channel option \<Rightarrow> channel option \<Rightarrow> channel option \<Rightarrow>
     real option table option \<Rightarrow> nat \<Rightarrow> py_error + (real option table \<times> (string \<rightharpoonup> 'v))" where
  "bio_process co ecg rsp eda emg keep sampling_rate =
     (case unpack ecg rsp eda emg keep of (ecg, rsp, eda, emg, keep) \<Rightarrow>
        bind_err (channel_block co (ecg_process co) ecg sampling_rate ([], Map.empty)) (\<lambda>acc.
        bind_err (channel_block co (rsp_process co) rsp sampling_rate acc) (\<lambda>acc.
        bind_err (channel_block co (eda_process co) eda sampling_rate acc) (\<lambda>acc.
        bind_err (channel_block co (emg_process co) emg sampling_rate acc) (\<lambda>(bio_df, bio_info).
        (case keep of
           None \<Rightarrow> Inr (bio_df, bio_info)
         | Some keep \<Rightarrow> Inr (pd_concat bio_df keep, bio_info)))))))"

text \<open>What one channel contributes on its own: nothing when absent, otherwise the
  output of its pipeline on the sanitized channel.\<close>

definition channel_output ::
    "'v collaborators \<Rightarrow> (channel \<Rightarrow> nat \<Rightarrow> py_error + (real option table \<times> (string \<rightharpoonup> 'v))) \<Rightarrow>
     channel option \<Rightarrow> nat \<Rightarrow> py_error + (real option table \<times> (string \<rightharpoonup> 'v))" where
  "channel_output co process ch sampling_rate =
     (case ch of
        None \<Rightarrow> Inr ([], Map.empty)
      | Some x \<Rightarrow> bind_err (sanitize_input co x message) (\<lambda>x. process x sampling_rate))"

text \<open>Stand-ins for the collaborators, and one run of the orchestrator with them: three
  channels whose mappings all hold the key "Rate", and a pass-through column.\<close>

definition demo :: "nat collaborators" where
  "demo = \<lparr>sanitize_input = (\<lambda>x m. Inr x),
     ecg_process = (\<lambda>x sr. Inr ([(''ECG_Raw'', x)], [''Rate'' \<mapsto> 1, ''ECG_Peaks'' \<mapsto> 5])),
     rsp_process = (\<lambda>x sr. Inr ([(''RSP_Raw'', x)], [''Rate'' \<mapsto> 2])),
     eda_process = (\<lambda>x sr. Inr ([(''EDA_Raw'', x)], [''Rate'' \<mapsto> 3])),
     emg_process = (\<lambda>x sr. Inr ([(''EMG_Raw'', x)], [''Rate'' \<mapsto> 4]))\<rparr>"

definition demo_keep :: "real option table" where
  "demo_keep = [(''Photosensor'', [Some 0, Some 0])]"

definition demo_df :: "real option table" where
  "demo_df = [(''ECG_Raw'', [Some 1, Some 2]), (''RSP_Raw'', [Some 3, Some 4]),
              (''EDA_Raw'', [Some 5, Some 6]), (''Photosensor'', [Some 0, Some 0])]"

definition demo_info :: "string \<rightharpoonup> nat" where
  "demo_info = [''Rate'' \<mapsto> 1, ''ECG_Peaks'' \<mapsto> 5] ++ [''Rate'' \<mapsto> 2] ++ [''Rate'' \<mapsto> 3]"

section \<open>The thresholding step over the arrays' own arithmetic\<close>

text \<open>
  numpy computes lines 189 to 191 in the arithmetic of the array's element type: float64
  operations round, int64 subtraction wraps around, the mean of an empty array is NaN.
  The thresholding step is therefore given here once more with that arithmetic as a
  parameter: the elementwise subtraction of \<open>np.diff\<close>, \<open>np.abs\<close>, \<open>np.mean\<close>, the
  product with the threshold and the elementwise comparison. Samples, differences, the
  mean and the threshold may each have a type of their own. The exact arithmetic of the
  reals, which \<open>min_diff\<close> above uses, is the instance \<open>exact\<close>.
\<close>

record ('a, 'd, 'm, 't) np_arith =
  arr_subtract :: "'a \<Rightarrow> 'a \<Rightarrow> 'd"
  arr_abs :: "'d \<Rightarrow> 'd"
  arr_mean :: "'d list \<Rightarrow> 'm"
  arr_multiply :: "'m \<Rightarrow> 't \<Rightarrow> 'm"
  arr_greater :: "'d \<Rightarrow> 'm \<Rightarrow> bool"

text \<open>\<open>np.diff(a)\<close>: \<open>a[1:] - a[:-1]\<close> with the given subtraction.\<close>

definition np_diff_in :: "('a \<Rightarrow> 'a \<Rightarrow> 'd) \<Rightarrow> 'a list \<Rightarrow> 'd list" where
  "np_diff_in sub a = map2 (\<lambda>x y. sub y x) (butlast a) (drop 1 a)"

definition min_diff_in :: "('a, 'd, 'm, 't) np_arith \<Rightarrow> 'a list \<Rightarrow> 't \<Rightarrow> nat list" where
  "min_diff_in ar amps outlier_threshold =
     (let vertical_diff = map (arr_abs ar) (np_diff_in (arr_subtract ar) amps);
          average_diff = arr_mean ar vertical_diff
      in np_where (map (\<lambda>d. arr_greater ar d (arr_multiply ar average_diff outlier_threshold))
                     vertical_diff))"

definition outliers_threshold_in ::
    "('a, 'd, 'm, 't) np_arith \<Rightarrow> 'a list \<Rightarrow> nat list \<Rightarrow> 't \<Rightarrow> py_error + nat list" where
  "outliers_threshold_in ar rsp_cleaned extrema outlier_threshold =
     (if extrema = [] then Inl IndexError
      else bind_err (take_idx rsp_cleaned extrema) (\<lambda>amps.
           take_idx extrema (min_diff_in ar amps outlier_threshold)))"

definition exact :: "(real, real, real option, real) np_arith" where
  "exact = \<lparr>arr_subtract = (\<lambda>y x. y - x),
            arr_abs = abs,
            arr_mean = np_mean,
            arr_multiply = (\<lambda>m t. map_option (\<lambda>v. v * t) m),
            arr_greater = (\<lambda>d m. case m of None \<Rightarrow> False | Some v \<Rightarrow> d > v)\<rparr>"

text \<open>The rule in the specification's words, each operation being the arrays' own: the mean
  vertical distance of consecutive extrema, and "position \<open>i\<close> is retained exactly when
  \<open>i < n - 1\<close> and the distance to the next amplitude exceeds the mean distance times
  the threshold".\<close>

definition mean_distance :: "('a, 'd, 'm, 't) np_arith \<Rightarrow> 'a list \<Rightarrow> 'm" where
  "mean_distance ar amplitude =
     arr_mean ar (map (\<lambda>i. arr_abs ar (arr_subtract ar (amplitude ! (i + 1)) (amplitude ! i)))
                    [0..<length amplitude - 1])"

definition retained :: "('a, 'd, 'm, 't) np_arith \<Rightarrow> 'a list \<Rightarrow> 't \<Rightarrow> nat \<Rightarrow> bool" where
  "retained ar amplitude threshold i \<longleftrightarrow>
     i < length amplitude - 1 \<and>
     arr_greater ar (arr_abs ar (arr_subtract ar (amplitude ! (i + 1)) (amplitude ! i)))
       (arr_multiply ar (mean_distance ar amplitude) threshold)"

section \<open>Basic facts\<close>

lemma bind_err_simps [simp]:
  "bind_err (Inl e) f = Inl e"
  "bind_err (Inr x) f = f x"
  by (simp_all add: bind_err_def)

lemma bind_err_Inr_iff:
  "bind_err m f = Inr y \<longleftrightarrow> (\<exists>x. m = Inr x \<and> f x = Inr y)"
  by (cases m) simp_all

lemma lower_biosppy: "lower ''biosppy'' = ''biosppy''"
  by (simp add: lower_def lower_char_def)

lemma lower_khodadad2018: "lower ''khodadad2018'' = ''khodadad2018''"
  by (simp add: lower_def lower_char_def)

section \<open>Method dispatch\<close>

text \<open>
  C2. Calling the pipeline with method "biosppy", whatever the outlier threshold, gives
  the same result (table and info, or the same exception) as calling it with method
  "khodadad2018" and outlier threshold 0, for every input.
\<close>

theorem biosppy_is_khodadad_threshold_zero:
  "rsp_findpeaks x ''biosppy'' outlier_threshold = rsp_findpeaks x ''khodadad2018'' 0"
  by (simp add: rsp_findpeaks_def lower_biosppy lower_khodadad2018 rsp_findpeaks_biosppy_def)

text \<open>
  C7. A method name that, lowercased, is none of the allowed names makes the call raise
  the ValueError that names the allowed methods, for every signal; for any input the
  call returns no table and no info (a table without the column raises its lookup error
  before the method is looked at).
\<close>

theorem invalid_method_raises:
  assumes "lower method \<notin> set [''khodadad'', ''khodadad2018'', ''biosppy'']"
  shows "rsp_findpeaks (Sequence s) method outlier_threshold = Inl (ValueError method_error)
       \<and> rsp_findpeaks x method outlier_threshold =
           (case retrieve_column x of Inl e \<Rightarrow> Inl e | Inr cleaned \<Rightarrow> Inl (ValueError method_error))"
  using assms
  by (auto simp add: rsp_findpeaks_def retrieve_column_def Let_def split: sum.splits)

theorem invalid_method_raises_witness:
  "lower ''not_a_method'' \<notin> set [''khodadad'', ''khodadad2018'', ''biosppy'']
   \<and> rsp_findpeaks (Sequence [-1, 1, -1, 1, -1, 1, -1]) ''not_a_method'' (3/10)
       = Inl (ValueError method_error)
   \<and> rsp_findpeaks (DataFrame [(''RSP_Clean'', [-1, 1, -1, 1, -1, 1, -1])]) ''not_a_method'' (3/10)
       = Inl (ValueError method_error)"
proof -
  have h: "lower ''not_a_method'' \<notin> set [''khodadad'', ''khodadad2018'', ''biosppy'']"
    by (simp add: lower_def lower_char_def)
  have c: "retrieve_column (DataFrame [(''RSP_Clean'', [-1, 1, -1, 1, -1, 1, -1])])
             = Inr [-1, 1, -1, 1, -1, 1, -1]"
    by (simp add: retrieve_column_def df_getitem_def try_except_NameError_def)
  show ?thesis
    using h c
      invalid_method_raises [OF h, of "[-1, 1, -1, 1, -1, 1, -1]" "3/10"
        "DataFrame [(''RSP_Clean'', [-1, 1, -1, 1, -1, 1, -1])]"]
    by simp
qed

section \<open>Column lookup\<close>

lemma retrieve_column_no_fallback:
  "map_of df ''RSP_Clean'' = None \<Longrightarrow>
   rsp_findpeaks (DataFrame df) method outlier_threshold = Inl (KeyError ''RSP_Clean'')"
  by (simp add: rsp_findpeaks_def retrieve_column_def df_getitem_def try_except_NameError_def)

text \<open>
  C6. The claim has a table that lacks "RSP_Clean" but holds "RSP_Raw" processed from
  its "RSP_Raw" column. The handlers catch NameError, while the lookup of an absent
  column raises KeyError: on such a table the call raises KeyError for "RSP_Clean" and
  the other two names are never tried.
\<close>

theorem missing_clean_column_raises_KeyError:
  "rsp_findpeaks (DataFrame [(''RSP_Raw'', [-1, 1, -1, 1, -1, 1, -1])]) ''khodadad2018'' (3/10)
     = Inl (KeyError ''RSP_Clean'')"
  by (simp add: rsp_findpeaks_def retrieve_column_def df_getitem_def try_except_NameError_def)

section \<open>Outlier filter and index faults\<close>

lemma length_np_diff_in [simp]: "length (np_diff_in sub a) = length a - 1"
  by (simp add: np_diff_in_def)

lemma np_diff_in_nth: "i < length a - 1 \<Longrightarrow> np_diff_in sub a ! i = sub (a ! (i + 1)) (a ! i)"
  by (simp add: np_diff_in_def nth_butlast)

lemma vertical_diff_in:
  "map (arr_abs ar) (np_diff_in (arr_subtract ar) a)
     = map (\<lambda>i. arr_abs ar (arr_subtract ar (a ! (i + 1)) (a ! i))) [0..<length a - 1]"
  by (rule nth_equalityI) (simp_all add: np_diff_in_nth)

lemma min_diff_in_retained:
  "min_diff_in ar amps thr = filter (retained ar amps thr) [0..<length amps - 1]"
proof -
  have m: "arr_mean ar (map (arr_abs ar) (np_diff_in (arr_subtract ar) amps)) = mean_distance ar amps"
    by (simp add: mean_distance_def vertical_diff_in)
  show ?thesis
    unfolding min_diff_in_def Let_def m np_where_def
    by (rule filter_cong) (auto simp: retained_def np_diff_in_nth)
qed

lemma not_retained_last: "\<not> retained ar amps thr (length amps - 1)"
  by (simp add: retained_def)

lemma filter_retained_upto:
  "filter (retained ar amps thr) [0..<length amps]
     = filter (retained ar amps thr) [0..<length amps - 1]"
proof (cases "length amps")
  case 0
  then show ?thesis by simp
next
  case (Suc n)
  then show ?thesis using not_retained_last [of ar amps thr] by simp
qed

lemma take_idx_Inr: "\<forall>i\<in>set idx. i < length a \<Longrightarrow> take_idx a idx = Inr (map (\<lambda>i. a ! i) idx)"
  by (simp add: take_idx_def)

lemma set_min_diff_in_bound: "i \<in> set (min_diff_in ar amps thr) \<Longrightarrow> i < length amps - 1"
  by (simp add: min_diff_in_retained)

text \<open>The step of the pipeline is the instance at the exact arithmetic.\<close>

lemma np_diff_exact: "np_diff a = np_diff_in (\<lambda>y x. y - x) a"
  by (simp add: np_diff_def np_diff_in_def)

lemma min_diff_exact: "min_diff amps thr = min_diff_in exact amps thr"
proof -
  have "(case np_mean vd of None \<Rightarrow> False | Some m \<Rightarrow> d > m * thr)
      = (case map_option (\<lambda>v. v * thr) (np_mean vd) of None \<Rightarrow> False | Some v \<Rightarrow> d > v)"
    for vd :: "real list" and d :: real
    by (cases "np_mean vd") simp_all
  then show ?thesis
    by (simp add: min_diff_def min_diff_in_def exact_def np_diff_exact)
qed

lemma outliers_threshold_exact:
  "outliers_threshold rsp_cleaned extrema thr = outliers_threshold_in exact rsp_cleaned extrema thr"
  by (simp add: outliers_threshold_def outliers_threshold_in_def min_diff_exact)

lemma min_diff_retained:
  "min_diff amps thr = filter (retained exact amps thr) [0..<length amps - 1]"
  by (simp add: min_diff_exact min_diff_in_retained)

text \<open>
  C10. For a nonempty extrema sequence within the signal, any threshold, and whatever
  arithmetic the arrays carry, the thresholding step keeps the extremum at position
  \<open>i\<close> exactly when \<open>i < n - 1\<close> and \<open>|amplitude[i+1] - amplitude[i]|\<close> exceeds
  \<open>mean_distance * threshold\<close>, each as that arithmetic computes it; the last position
  \<open>n - 1\<close> is never kept.
\<close>

theorem thresholding_drops_last:
  assumes "extrema \<noteq> []" and "\<forall>e\<in>set extrema. e < length rsp_cleaned"
  shows "outliers_threshold_in ar rsp_cleaned extrema outlier_threshold =
           Inr (map (\<lambda>i. extrema ! i)
                  (filter (retained ar (map (\<lambda>e. rsp_cleaned ! e) extrema) outlier_threshold)
                     [0..<length extrema]))
         \<and> \<not> retained ar (map (\<lambda>e. rsp_cleaned ! e) extrema) outlier_threshold
               (length extrema - 1)"
proof -
  let ?amps = "map (\<lambda>e. rsp_cleaned ! e) extrema"
  have a: "take_idx rsp_cleaned extrema = Inr ?amps"
    using assms(2) by (rule take_idx_Inr)
  have b: "\<forall>i\<in>set (min_diff_in ar ?amps outlier_threshold). i < length extrema"
    using set_min_diff_in_bound [of _ ar ?amps outlier_threshold] by fastforce
  have c: "min_diff_in ar ?amps outlier_threshold
             = filter (retained ar ?amps outlier_threshold) [0..<length extrema]"
    using filter_retained_upto [of ar ?amps outlier_threshold] by (simp add: min_diff_in_retained)
  have "outliers_threshold_in ar rsp_cleaned extrema outlier_threshold
          = Inr (map (\<lambda>i. extrema ! i) (min_diff_in ar ?amps outlier_threshold))"
    using assms(1) a take_idx_Inr [OF b] by (simp add: outliers_threshold_in_def)
  then show ?thesis
    using c not_retained_last [of ar ?amps outlier_threshold] by simp
qed

theorem thresholding_drops_last_witness:
  "[0, 1, 2, 3, 4] \<noteq> ([]::nat list)
   \<and> outliers_threshold_in exact [-1, 2, -3, 4, -1, 1, -1] [0, 1, 2, 3, 4] (3/10) =
           Inr (map (\<lambda>i. [0, 1, 2, 3, 4] ! i)
                  (filter (retained exact (map (\<lambda>e. [-1, 2, -3, 4, -1, 1, -1] ! e) [0, 1, 2, 3, 4]) (3/10))
                     [0..<length [0, 1, 2, 3, 4::nat]]))
   \<and> \<not> retained exact (map (\<lambda>e. [-1, 2, -3, 4, -1, 1, -1] ! e) [0, 1, 2, 3, 4]) (3/10)
          (length [0, 1, 2, 3, 4::nat] - 1)
   \<and> outliers_threshold_in exact [-1, 2, -3, 4, -1, 1, -1] [0, 1, 2, 3, 4] (3/10)
       = Inr [0, 1, 2, 3]"
proof -
  have h1: "[0, 1, 2, 3, 4] \<noteq> ([]::nat list)" by simp
  have h2: "\<forall>e\<in>set [0, 1, 2, 3, 4::nat]. e < length [-1, 2, -3, 4, -1, 1, -1::real]" by simp
  have v: "outliers_threshold_in exact [-1, 2, -3, 4, -1, 1, -1] [0, 1, 2, 3, 4] (3/10)
             = Inr [0, 1, 2, 3]"
    by code_simp
  from thresholding_drops_last [OF h1 h2, of exact "3/10"] h1 v show ?thesis by blast
qed

text \<open>
  C5. The claim has the thresholding step keep every extremum at threshold 0. On the
  signal \<open>[-1, 1, -1, 1, -1]\<close> the locator finds the extrema \<open>[0, 1, 2]\<close>, and the
  thresholding step at threshold 0 keeps \<open>[0, 1]\<close> only: the difference array is one
  shorter than the extrema it indexes.
\<close>

theorem threshold_zero_drops_last_extremum:
  "rsp_findpeaks_extrema [-1, 1, -1, 1, -1] = Inr [0, 1, 2]
   \<and> outliers_threshold [-1, 1, -1, 1, -1] [0, 1, 2] 0 = Inr [0, 1]"
  by code_simp

lemma extrema_IndexError:
  "risex s = [] \<or> fallx s = [] \<Longrightarrow> rsp_findpeaks_extrema s = Inl IndexError"
  by (simp add: rsp_findpeaks_extrema_def)

lemma few_crossings: "length (risex s) + length (fallx s) < 2 \<Longrightarrow> risex s = [] \<or> fallx s = []"
  by (cases "risex s"; cases "fallx s") simp_all

text \<open>
  C3, as amended. A signal with no rising or no falling crossing (in particular one with
  fewer than two crossings) makes the call, under any of the recognised methods, raise
  the raw IndexError of \<open>risex[0]\<close> or \<open>fallx[0]\<close>; the code has no domain error.
\<close>

theorem no_oscillation_raw_IndexError:
  assumes "length (risex s) + length (fallx s) < 2 \<or> risex s = [] \<or> fallx s = []"
    and "lower method \<in> set [''khodadad'', ''khodadad2018'', ''biosppy'']"
  shows "rsp_findpeaks (Sequence s) method outlier_threshold = Inl IndexError"
proof -
  from assms(1) have "risex s = [] \<or> fallx s = []" using few_crossings by blast
  then have e: "rsp_findpeaks_extrema s = Inl IndexError" by (rule extrema_IndexError)
  then have k: "rsp_findpeaks_khodadad s t = Inl IndexError" for t
    by (simp add: rsp_findpeaks_khodadad_def)
  show ?thesis
    using assms(2) k
    by (auto simp add: rsp_findpeaks_def retrieve_column_def Let_def rsp_findpeaks_biosppy_def)
qed

theorem no_oscillation_raw_IndexError_witness:
  "(length (risex [1, -1, 0, 1, -1]) + length (fallx [1, -1, 0, 1, -1]) < 2
      \<or> risex [1, -1, 0, 1, -1] = [] \<or> fallx [1, -1, 0, 1, -1] = [])
   \<and> lower ''BioSPPy'' \<in> set [''khodadad'', ''khodadad2018'', ''biosppy'']
   \<and> rsp_findpeaks (Sequence [1, -1, 0, 1, -1]) ''BioSPPy'' (3/10) = Inl IndexError"
proof -
  have h1: "length (risex [1, -1, 0, 1, -1]) + length (fallx [1, -1, 0, 1, -1]) < 2
      \<or> risex [1, -1, 0, 1, -1] = [] \<or> fallx [1, -1, 0, 1, -1] = []"
    by code_simp
  have h2: "lower ''BioSPPy'' \<in> set [''khodadad'', ''khodadad2018'', ''biosppy'']"
    by (simp add: lower_def lower_char_def)
  from no_oscillation_raw_IndexError [OF h1 h2, of "3/10"] h1 h2 show ?thesis by blast
qed

text \<open>
  C3 as stated fails: a signal without any crossing ends in the raw IndexError.
\<close>

theorem no_oscillation_counterexample:
  "length (risex [1, 2, 3]) + length (fallx [1, 2, 3]) < 2
   \<and> rsp_findpeaks (Sequence [1, 2, 3]) ''khodadad2018'' (3/10) = Inl IndexError"
  by code_simp

lemma length_np_delete_same:
  "length a = length b \<Longrightarrow> length (np_delete a idx) = length (np_delete b idx)"
  by (simp add: np_delete_def)

lemma take_idx_length: "take_idx a idx = Inr r \<Longrightarrow> length r = length idx"
  by (auto simp: take_idx_def split: if_splits)

lemma outliers_lengths:
  assumes "rsp_findpeaks_outliers s extrema thr = Inr (extrema', amplitudes)"
  shows "length amplitudes = length extrema'"
proof -
  from assms obtain e1 a1 where
    "take_idx s e1 = Inr a1"
    and r: "extrema' = np_delete e1 (removeext a1)" "amplitudes = np_delete a1 (removeext a1)"
    by (auto simp: rsp_findpeaks_outliers_def bind_err_Inr_iff Let_def)
  then have "length a1 = length e1" by (simp add: take_idx_length)
  then show ?thesis unfolding r by (rule length_np_delete_same)
qed

text \<open>
  C4, as amended. When fewer than two extrema are left by the outlier filter, the call
  under the khodadad method raises the raw IndexError of \<open>amplitudes[0]\<close> or
  \<open>amplitudes[1]\<close>; the code has no domain error.
\<close>

theorem few_extrema_raw_IndexError:
  assumes "rsp_findpeaks_extrema s = Inr extrema"
    and "rsp_findpeaks_outliers s extrema outlier_threshold = Inr (extrema', amplitudes)"
    and "length extrema' < 2"
    and "lower method \<in> set [''khodadad'', ''khodadad2018'']"
  shows "rsp_findpeaks (Sequence s) method outlier_threshold = Inl IndexError"
proof -
  have "length amplitudes < 2" using outliers_lengths [OF assms(2)] assms(3) by simp
  then have "rsp_findpeaks_sanitize extrema' amplitudes = Inl IndexError"
    by (simp add: rsp_findpeaks_sanitize_def)
  then have "rsp_findpeaks_khodadad s outlier_threshold = Inl IndexError"
    using assms(1,2) by (simp add: rsp_findpeaks_khodadad_def)
  then show ?thesis
    using assms(4) by (auto simp add: rsp_findpeaks_def retrieve_column_def Let_def)
qed

theorem few_extrema_raw_IndexError_witness:
  "rsp_findpeaks_extrema [-1, 2, -3, 4, -1, 1, -1] = Inr [0, 1, 2, 3, 4]
   \<and> rsp_findpeaks_outliers [-1, 2, -3, 4, -1, 1, -1] [0, 1, 2, 3, 4] 5 = Inr ([], [])
   \<and> length ([]::nat list) < 2
   \<and> lower ''Khodadad2018'' \<in> set [''khodadad'', ''khodadad2018'']
   \<and> rsp_findpeaks (Sequence [-1, 2, -3, 4, -1, 1, -1]) ''Khodadad2018'' 5 = Inl IndexError"
proof -
  have h1: "rsp_findpeaks_extrema [-1, 2, -3, 4, -1, 1, -1] = Inr [0, 1, 2, 3, 4]"
    by code_simp
  have h2: "rsp_findpeaks_outliers [-1, 2, -3, 4, -1, 1, -1] [0, 1, 2, 3, 4] 5 = Inr ([], [])"
    by code_simp
  have h3: "length ([]::nat list) < 2" by simp
  have h4: "lower ''Khodadad2018'' \<in> set [''khodadad'', ''khodadad2018'']"
    by (simp add: lower_def lower_char_def)
  from few_extrema_raw_IndexError [OF h1 h2 h3 h4] h1 h2 h3 h4 show ?thesis by blast
qed

text \<open>
  C4 as stated fails: at threshold 5 on an oscillating signal no extremum is left, and
  the call ends in the raw IndexError.
\<close>

theorem few_extrema_counterexample:
  "rsp_findpeaks_extrema [-1, 1, -1, 1, -1, 1, -1] = Inr [0, 1, 2, 3, 4]
   \<and> rsp_findpeaks_outliers [-1, 1, -1, 1, -1, 1, -1] [0, 1, 2, 3, 4] 5 = Inr ([], [])
   \<and> rsp_findpeaks (Sequence [-1, 1, -1, 1, -1, 1, -1]) ''khodadad2018'' 5 = Inl IndexError"
  by code_simp

text \<open>A threshold of 5 does not always leave fewer than two extrema.\<close>

lemma threshold_5_can_succeed:
  "rsp_findpeaks (Sequence [-1000, 1000, -1000, 1, -1, 1, -1, 1, -1, 1, -1, 1, -1, 1, -1, 1])
     ''khodadad2018'' 5
   = Inr ([(''RSP_Peaks'', [Some 0, Some 1, Some 0, Some 0, Some 0, Some 0, Some 0, Some 0,
         Some 0, Some 0, Some 0, Some 0, Some 0, Some 0, Some 0, Some 0]),
       (''RSP_Troughs'', [Some 1, Some 0, Some 0, Some 0, Some 0, Some 0, Some 0, Some 0,
         Some 0, Some 0, Some 0, Some 0, Some 0, Some 0, Some 0, Some 0]),
       (''RSP_Inspiration'', [Some 1, Some 0, None, None, None, None, None, None, None, None,
         None, None, None, None, None, None])],
      \<lparr>RSP_Peaks = [1], RSP_Troughs = [0]\<rparr>)"
  by code_simp

section \<open>Strict alternation of the detected extrema\<close>

lemma np_where_sorted: "sorted_wrt (<) (np_where c)"
  by (simp add: np_where_def sorted_wrt_filter)

lemma np_where_set: "set (np_where c) = {i. i < length c \<and> c ! i}"
  by (auto simp: np_where_def)

lemma risex_set: "i \<in> set (risex s) \<Longrightarrow> Suc i < length s \<and> s ! i < 0 \<and> s ! Suc i > 0"
  by (auto simp: risex_def np_where_set nth_butlast)

lemma fallx_set: "i \<in> set (fallx s) \<Longrightarrow> Suc i < length s \<and> s ! i > 0 \<and> s ! Suc i < 0"
  by (auto simp: fallx_def np_where_set nth_butlast)

lemma risex_sorted: "sorted_wrt (<) (risex s)"
  by (simp add: risex_def np_where_sorted)

lemma fallx_sorted: "sorted_wrt (<) (fallx s)"
  by (simp add: fallx_def np_where_sorted)

lemma allx_sorted: "sorted_wrt (<) (sort (risex s @ fallx s))"
proof -
  have "set (risex s) \<inter> set (fallx s) = {}"
    using risex_set [of _ s] fallx_set [of _ s] by fastforce
  then have "distinct (risex s @ fallx s)"
    using risex_sorted [of s] fallx_sorted [of s] by (simp add: strict_sorted_iff)
  then show ?thesis by (simp add: strict_sorted_iff)
qed

lemma allx_bound: "x \<in> set (sort (risex s @ fallx s)) \<Longrightarrow> Suc x < length s"
  using risex_set [of x s] fallx_set [of x s] by auto

lemma arg_best_bound: "best < i \<Longrightarrow> arg_best better best bv i xs < i + length xs"
proof (induction xs arbitrary: best bv i)
  case Nil
  then show ?case by simp
next
  case (Cons x xs)
  have "arg_best better i x (Suc i) xs < Suc i + length xs"
    by (rule Cons.IH) simp
  moreover have "arg_best better best bv (Suc i) xs < Suc i + length xs"
    by (rule Cons.IH) (use Cons.prems in simp)
  ultimately show ?case by simp
qed

lemma np_argmax_bound: "np_argmax seg = Inr k \<Longrightarrow> k < length seg"
  using arg_best_bound [of 0 1] by (auto simp: np_argmax_def split: list.splits)

lemma np_argmin_bound: "np_argmin seg = Inr k \<Longrightarrow> k < length seg"
  using arg_best_bound [of 0 1] by (auto simp: np_argmin_def split: list.splits)

lemma argextreme_bound: "argextreme sx i seg = Inr k \<Longrightarrow> k < length seg"
  by (auto simp: argextreme_def dest: np_argmax_bound np_argmin_bound
      split: option.splits startx.splits if_splits)

lemma length_slice: "length (slice a b e) = min e (length a) - b"
  by (simp add: slice_def)

lemma extrema_loop_sorted:
  "sorted_wrt (<) allx \<Longrightarrow> extrema_loop s sx i allx = Inr es \<Longrightarrow>
   sorted_wrt (<) es \<and> (\<forall>e\<in>set es. hd allx \<le> e \<and> e < last allx)"
proof (induction s sx i allx arbitrary: es rule: extrema_loop.induct)
  case (1 s sx i b e rest)
  from "1.prems"(2) obtain k es' where
    k: "argextreme sx i (slice s b e) = Inr k"
    and l: "extrema_loop s sx (Suc i) (e # rest) = Inr es'"
    and es: "es = (b + k) # es'"
    by (auto simp: bind_err_Inr_iff)
  from "1.prems"(1) have srt: "sorted_wrt (<) (e # rest)" and be: "b < e" by auto
  from "1.IH" [OF srt l]
  have ih: "sorted_wrt (<) es'" "\<forall>x\<in>set es'. e \<le> x \<and> x < last (e # rest)" by auto
  from argextreme_bound [OF k] have kb: "b + k < e" by (simp add: length_slice)
  have "e \<le> last (e # rest)"
    using srt by (cases rest) (auto simp: less_imp_le)
  with kb ih es show ?case by (auto simp: less_imp_le)
qed simp_all

lemma extrema_sorted:
  assumes "rsp_findpeaks_extrema s = Inr es"
  shows "sorted_wrt (<) es \<and> (\<forall>e\<in>set es. e < length s)"
proof -
  let ?allx = "sort (risex s @ fallx s)"
  from assms obtain sx where l: "extrema_loop s sx 0 ?allx = Inr es" and ne: "risex s \<noteq> []"
    by (auto simp: rsp_findpeaks_extrema_def Let_def split: if_splits)
  then have "?allx \<noteq> []" by (metis Nil_is_append_conv set_empty set_sort)
  then have "last ?allx \<in> set ?allx" by (rule last_in_set)
  then have "Suc (last ?allx) < length s" by (rule allx_bound)
  with extrema_loop_sorted [OF allx_sorted l] show ?thesis by fastforce
qed

lemma sorted_select:
  assumes "sorted_wrt (<) (xs::nat list)" and "n \<le> length xs"
  shows "sorted_wrt (<) (map (\<lambda>i. xs ! i) (filter P [0..<n]))"
proof -
  have "sorted_wrt (\<lambda>i j. i < j \<and> j < n) (filter P [0..<n])"
    by (rule sorted_wrt_filter) (simp add: sorted_wrt_iff_nth_less)
  then have "sorted_wrt (\<lambda>i j. xs ! i < xs ! j) (filter P [0..<n])"
    by (rule sorted_wrt_mono_rel [rotated])
      (use assms in \<open>auto intro: sorted_wrt_nth_less\<close>)
  then show ?thesis by (simp add: sorted_wrt_map)
qed

lemma set_select: "n \<le> length xs \<Longrightarrow> set (map (\<lambda>i. xs ! i) (filter P [0..<n])) \<subseteq> set xs"
  by auto


lemma outliers_threshold_shape:
  assumes "outliers_threshold s e thr = Inr e1"
  shows "\<exists>P. e1 = map (\<lambda>i. e ! i) (filter P [0..<length e - 1])"
proof -
  from assms obtain amps where a: "take_idx s e = Inr amps"
    and b: "take_idx e (min_diff amps thr) = Inr e1"
    by (auto simp: outliers_threshold_def bind_err_Inr_iff split: if_splits)
  from a have "length amps = length e" by (rule take_idx_length)
  moreover from b have "e1 = map (\<lambda>i. e ! i) (min_diff amps thr)"
    by (auto simp: take_idx_def split: if_splits)
  ultimately show ?thesis by (auto simp: min_diff_retained)
qed

lemma outliers_sorted:
  assumes "sorted_wrt (<) e" and "rsp_findpeaks_outliers s e thr = Inr (e', a)"
  shows "sorted_wrt (<) e' \<and> set e' \<subseteq> set e"
proof -
  from assms(2) obtain e1 a1 where t: "outliers_threshold s e thr = Inr e1"
    and e': "e' = np_delete e1 (removeext a1)"
    by (auto simp: rsp_findpeaks_outliers_def bind_err_Inr_iff Let_def)
  from outliers_threshold_shape [OF t] obtain P
    where e1: "e1 = map (\<lambda>i. e ! i) (filter P [0..<length e - 1])" by blast
  have s1: "sorted_wrt (<) e1" unfolding e1 using assms(1) by (rule sorted_select) simp
  have sub1: "set e1 \<subseteq> set e" unfolding e1 by (rule set_select) simp
  have "sorted_wrt (<) e'" unfolding e' np_delete_def using s1 by (rule sorted_select) simp
  moreover have "set e' \<subseteq> set e1" unfolding e' np_delete_def by (rule set_select) simp
  ultimately show ?thesis using sub1 by blast
qed

lemma sanitize_shape:
  assumes "rsp_findpeaks_sanitize e a = Inr (p, t)"
  shows "\<exists>e''. (e'' = e \<or> e'' = drop 1 e \<or> e'' = butlast e \<or> e'' = butlast (drop 1 e))
           \<and> p = every_other (drop 1 e'') \<and> t = every_other (butlast e'')"
proof -
  from assms have "\<not> length a < 2"
    by (auto simp: rsp_findpeaks_sanitize_def)
  with assms obtain e1 e2 where
    a: "(if a ! 0 > a ! 1 then (if e = [] then Inl IndexError else Inr (drop 1 e)) else Inr e) = Inr e1"
    and b: "(if last a < a ! (length a - 2)
             then (if e1 = [] then Inl IndexError else Inr (butlast e1)) else Inr e1) = Inr e2"
    and c: "p = every_other (drop 1 e2)" "t = every_other (butlast e2)"
    by (simp add: rsp_findpeaks_sanitize_def bind_err_Inr_iff Let_def) blast
  from a have "e1 = e \<or> e1 = drop 1 e" by (simp split: if_splits)
  moreover from b have "e2 = e1 \<or> e2 = butlast e1" by (simp split: if_splits)
  ultimately have "e2 = e \<or> e2 = drop 1 e \<or> e2 = butlast e \<or> e2 = butlast (drop 1 e)"
    by blast
  with c show ?thesis by blast
qed

lemma sorted_wrt_butlast: "sorted_wrt R xs \<Longrightarrow> sorted_wrt R (butlast xs)"
  by (simp add: butlast_conv_take)

lemma sanitize_sorted:
  assumes "sorted_wrt (<) e" and "rsp_findpeaks_sanitize e a = Inr (p, t)"
  shows "\<exists>e''. sorted_wrt (<) e'' \<and> set e'' \<subseteq> set e
           \<and> p = every_other (drop 1 e'') \<and> t = every_other (butlast e'')"
proof -
  from sanitize_shape [OF assms(2)] obtain e'' where
    c: "e'' = e \<or> e'' = drop 1 e \<or> e'' = butlast e \<or> e'' = butlast (drop 1 e)"
    and pt: "p = every_other (drop 1 e'')" "t = every_other (butlast e'')" by blast
  from c assms(1) have "sorted_wrt (<) e''"
    by (auto intro: sorted_wrt_butlast)
  moreover from c have "set e'' \<subseteq> set e"
    by (auto dest: in_set_butlastD in_set_dropD)
  ultimately show ?thesis using pt by blast
qed

lemma length_every_other: "length (every_other xs) = (length xs + 1) div 2"
  by (induction xs rule: every_other.induct) simp_all

lemma every_other_nth: "i < length (every_other xs) \<Longrightarrow> every_other xs ! i = xs ! (2 * i)"
proof (induction xs arbitrary: i rule: every_other.induct)
  case (3 x y xs)
  then show ?case by (cases i) simp_all
qed simp_all

lemma khodadad_extrema:
  assumes "rsp_findpeaks_khodadad s thr = Inr info"
  shows "\<exists>e. sorted_wrt (<) e \<and> (\<forall>x\<in>set e. x < length s)
           \<and> RSP_Peaks info = every_other (drop 1 e) \<and> RSP_Troughs info = every_other (butlast e)"
proof -
  from assms obtain e0 e1 a1 p t where
    x: "rsp_findpeaks_extrema s = Inr e0"
    and o: "rsp_findpeaks_outliers s e0 thr = Inr (e1, a1)"
    and z: "rsp_findpeaks_sanitize e1 a1 = Inr (p, t)"
    and i: "info = \<lparr>RSP_Peaks = p, RSP_Troughs = t\<rparr>"
    by (auto simp: rsp_findpeaks_khodadad_def bind_err_Inr_iff)
  from extrema_sorted [OF x] have s0: "sorted_wrt (<) e0" "\<forall>x\<in>set e0. x < length s" by auto
  from outliers_sorted [OF s0(1) o] have s1: "sorted_wrt (<) e1" "set e1 \<subseteq> set e0" by auto
  from sanitize_sorted [OF s1(1) z] obtain e where
    "sorted_wrt (<) e" "set e \<subseteq> set e1" "p = every_other (drop 1 e)" "t = every_other (butlast e)"
    by blast
  then show ?thesis using s0(2) s1(2) i by auto
qed

lemma alternation_of_sorted:
  fixes e :: "nat list"
  assumes "sorted_wrt (<) e"
  defines "p \<equiv> every_other (drop 1 e)" and "t \<equiv> every_other (butlast e)"
  shows "length p = length t"
    and "i < length p \<Longrightarrow> t ! i < p ! i"
    and "Suc i < length t \<Longrightarrow> p ! i < t ! Suc i"
proof -
  show len: "length p = length t"
    by (simp add: p_def t_def length_every_other)
  have lp: "length p = length e div 2"
    by (cases e) (simp_all add: p_def length_every_other)
  { assume i: "i < length p"
    then have "2 * i + 1 < length e" using lp by simp
    moreover have "p ! i = e ! (2 * i + 1)"
      using i \<open>2 * i + 1 < length e\<close> by (simp add: p_def every_other_nth)
    moreover have "t ! i = e ! (2 * i)"
      using i len \<open>2 * i + 1 < length e\<close> by (simp add: t_def every_other_nth nth_butlast)
    ultimately show "t ! i < p ! i"
      using assms(1) by (simp add: sorted_wrt_nth_less) }
  { assume i: "Suc i < length t"
    then have b: "2 * i + 3 < length e" using lp len by simp
    have "p ! i = e ! (2 * i + 1)"
      using i len b by (simp add: p_def every_other_nth)
    moreover have "t ! Suc i = e ! (2 * i + 2)"
      using i b by (simp add: t_def every_other_nth nth_butlast)
    ultimately show "p ! i < t ! Suc i"
      using assms(1) b by (simp add: sorted_wrt_nth_less) }
qed

lemma rsp_findpeaks_Inr:
  assumes "rsp_findpeaks x method thr = Inr (signals, info)"
  shows "\<exists>cleaned thr' inspiration.
           retrieve_column x = Inr cleaned
         \<and> rsp_findpeaks_khodadad cleaned thr' = Inr info
         \<and> rsp_findpeaks_phase (signals_from_peakinfo info (RSP_Peaks info) (length cleaned)) = Inr inspiration
         \<and> signals = df_setitem (signals_from_peakinfo info (RSP_Peaks info) (length cleaned))
                        ''RSP_Inspiration'' inspiration"
  using assms
  by (auto simp: rsp_findpeaks_def bind_err_Inr_iff Let_def rsp_findpeaks_biosppy_def
      split: if_splits)

text \<open>
  C1. Whenever the call succeeds, the returned peak and trough index sequences have the
  same length, and \<open>Troughs[i] < Peaks[i] < Troughs[i+1]\<close> wherever these exist: the
  indices alternate strictly, from a trough to a final peak.
\<close>

theorem peaks_troughs_alternate:
  assumes "rsp_findpeaks x method outlier_threshold = Inr (signals, info)"
  shows "length (RSP_Peaks info) = length (RSP_Troughs info)
       \<and> (\<forall>i < length (RSP_Peaks info). RSP_Troughs info ! i < RSP_Peaks info ! i)
       \<and> (\<forall>i. Suc i < length (RSP_Troughs info) \<longrightarrow> RSP_Peaks info ! i < RSP_Troughs info ! Suc i)"
proof -
  from rsp_findpeaks_Inr [OF assms] obtain cleaned thr'
    where "rsp_findpeaks_khodadad cleaned thr' = Inr info" by blast
  from khodadad_extrema [OF this] obtain e where
    e: "sorted_wrt (<) e" "RSP_Peaks info = every_other (drop 1 e)"
       "RSP_Troughs info = every_other (butlast e)" by blast
  show ?thesis
    unfolding e(2,3) using alternation_of_sorted [OF e(1)] by blast
qed

theorem peaks_troughs_alternate_witness:
  "rsp_findpeaks (Sequence [-1, 1, -1, 1, -1, 1, -1]) ''khodadad2018'' (3/10) =
     Inr ([(''RSP_Peaks'', [Some 0, Some 1, Some 0, Some 1, Some 0, Some 0, Some 0]),
           (''RSP_Troughs'', [Some 1, Some 0, Some 1, Some 0, Some 0, Some 0, Some 0]),
           (''RSP_Inspiration'', [Some 1, Some 0, Some 1, Some 0, None, None, None])],
          \<lparr>RSP_Peaks = [1, 3], RSP_Troughs = [0, 2]\<rparr>)
   \<and> length [1, 3::nat] = length [0, 2::nat]
   \<and> [0, 2::nat] ! 0 < [1, 3::nat] ! 0 \<and> [0, 2::nat] ! 1 < [1, 3::nat] ! 1
   \<and> [1, 3::nat] ! 0 < [0, 2::nat] ! 1"
proof -
  have h: "rsp_findpeaks (Sequence [-1, 1, -1, 1, -1, 1, -1]) ''khodadad2018'' (3/10) =
     Inr ([(''RSP_Peaks'', [Some 0, Some 1, Some 0, Some 1, Some 0, Some 0, Some 0]),
           (''RSP_Troughs'', [Some 1, Some 0, Some 1, Some 0, Some 0, Some 0, Some 0]),
           (''RSP_Inspiration'', [Some 1, Some 0, Some 1, Some 0, None, None, None])],
          \<lparr>RSP_Peaks = [1, 3], RSP_Troughs = [0, 2]\<rparr>)"
    by code_simp
  from peaks_troughs_alternate [OF h] h show ?thesis by simp
qed

section \<open>Respiration phase\<close>

lemma length_assign_at [simp]: "length (assign_at a idx v) = length a"
  unfolding assign_at_def by (induction idx arbitrary: a) simp_all

lemma assign_at_nth:
  "j < length a \<Longrightarrow> assign_at a idx v ! j = (if j \<in> set idx then v else a ! j)"
  unfolding assign_at_def
proof (induction idx arbitrary: a)
  case Nil
  then show ?case by simp
next
  case (Cons i idx)
  then show ?case by (auto simp: nth_list_update)
qed

lemma length_pad_from [simp]: "length (pad_from p xs) = length xs"
  by (induction p xs rule: pad_from.induct) simp_all

lemma pad_from_keep: "j < length xs \<Longrightarrow> xs ! j \<noteq> None \<Longrightarrow> pad_from p xs ! j = xs ! j"
proof (induction p xs arbitrary: j rule: pad_from.induct)
  case (2 prev xs)
  then show ?case by (cases j) simp_all
next
  case (3 prev v xs)
  then show ?case by (cases j) simp_all
qed simp

lemma pad_from_fill:
  "j < length xs \<Longrightarrow> 0 < j \<Longrightarrow> xs ! j = None \<Longrightarrow> pad_from p xs ! j = pad_from p xs ! (j - 1)"
proof (induction p xs arbitrary: j rule: pad_from.induct)
  case (2 prev xs)
  show ?case
  proof (cases j)
    case (Suc k)
    then show ?thesis using 2 by (cases xs; cases k) (auto split: option.splits)
  qed (use 2 in simp)
next
  case (3 prev v xs)
  show ?case
  proof (cases j)
    case (Suc k)
    then show ?thesis using 3 by (cases xs; cases k) (auto split: option.splits)
  qed (use 3 in simp)
qed simp

lemma pad_from_defined:
  "j < length xs \<Longrightarrow> p \<noteq> None \<or> (\<exists>k\<le>j. xs ! k \<noteq> None) \<Longrightarrow> pad_from p xs ! j \<noteq> None"
proof (induction p xs arbitrary: j rule: pad_from.induct)
  case (2 prev xs)
  show ?case
  proof (cases j)
    case 0
    then show ?thesis using 2 by auto
  next
    case (Suc n)
    from "2.prems"(2) have "prev \<noteq> None \<or> (\<exists>k\<le>n. xs ! k \<noteq> None)"
    proof
      assume "\<exists>k\<le>j. (None # xs) ! k \<noteq> None"
      then obtain k where k: "k \<le> j" "(None # xs) ! k \<noteq> None" by blast
      then obtain k' where "k = Suc k'" by (cases k) auto
      with k Suc show ?thesis by auto
    qed simp
    with "2.IH" [of n] "2.prems"(1) Suc show ?thesis by simp
  qed
next
  case (3 prev v xs)
  show ?case
  proof (cases j)
    case 0
    then show ?thesis by simp
  next
    case (Suc n)
    with "3.IH" [of n] "3.prems"(1) show ?thesis by simp
  qed
qed simp

lemma pad_from_values: "j < length xs \<Longrightarrow> pad_from p xs ! j \<in> insert p (set xs)"
proof (induction p xs arbitrary: j rule: pad_from.induct)
  case (2 prev xs)
  then show ?case by (cases j) auto
next
  case (3 prev v xs)
  show ?case
  proof (cases j)
    case (Suc n)
    with "3.IH" [of n] "3.prems" show ?thesis by auto
  qed simp
qed simp

lemma last_filter_upt:
  assumes "filter Q [0..<n] \<noteq> []"
  shows "Q (last (filter Q [0..<n])) \<and> last (filter Q [0..<n]) < n
       \<and> (\<forall>j<n. Q j \<longrightarrow> j \<le> last (filter Q [0..<n]))"
proof -
  let ?xs = "filter Q [0..<n]"
  have m: "last ?xs \<in> set ?xs" using assms by (rule last_in_set)
  have s: "sorted ?xs" by (simp add: sorted_wrt_filter)
  { fix j assume "j < n" "Q j"
    then have "j \<in> set ?xs" by simp
    then obtain i where i: "i < length ?xs" "?xs ! i = j" by (metis in_set_conv_nth)
    then have "?xs ! i \<le> ?xs ! (length ?xs - 1)"
      using s by (intro sorted_nth_mono) auto
    then have "j \<le> last ?xs" using i assms by (simp add: last_conv_nth) }
  with m show ?thesis by auto
qed


lemma set_every_other: "set (every_other xs) \<subseteq> set xs"
  by (induction xs rule: every_other.induct) auto

lemma peaks_troughs_disjoint:
  assumes "sorted_wrt (<) (e::nat list)"
  shows "set (every_other (drop 1 e)) \<inter> set (every_other (butlast e)) = {}"
proof -
  have d: "distinct e" using assms by (simp add: strict_sorted_iff)
  { fix x assume "x \<in> set (every_other (drop 1 e))" "x \<in> set (every_other (butlast e))"
    then obtain i k where
      i: "i < length (every_other (drop 1 e))" "every_other (drop 1 e) ! i = x"
      and k: "k < length (every_other (butlast e))" "every_other (butlast e) ! k = x"
      by (metis in_set_conv_nth)
    from i have i1: "2 * i + 1 < length e" by (simp add: length_every_other)
    from k have k1: "2 * k < length e - 1" by (simp add: length_every_other)
    have "x = e ! (2 * i + 1)" using i i1 by (simp add: every_other_nth)
    moreover have "x = e ! (2 * k)" using k k1 by (simp add: every_other_nth nth_butlast)
    ultimately have "2 * i + 1 = 2 * k"
      using d i1 k1 by (simp add: nth_eq_iff_index_eq)
    then have False by presburger }
  then show ?thesis by blast
qed

lemma signals_columns:
  "df_getitem (signals_from_peakinfo info pidx n) ''RSP_Peaks'' = Inr (signal_from_indices (RSP_Peaks info) n)"
  "df_getitem (signals_from_peakinfo info pidx n) ''RSP_Troughs'' = Inr (signal_from_indices (RSP_Troughs info) n)"
  "df_len (signals_from_peakinfo info pidx n) = n"
  by (simp_all add: signals_from_peakinfo_def df_getitem_def df_len_def signal_from_indices_def)

lemma np_where_indicator:
  "np_where (map (\<lambda>x. x = Some 1) (signal_from_indices idx n)) = filter (\<lambda>j. j \<in> set idx) [0..<n]"
  unfolding np_where_def signal_from_indices_def
  by (rule filter_cong) auto

lemma marked_series_assign:
  "assign_at (assign_at (replicate n None) (filter (\<lambda>j. j \<in> set pk) [0..<n]) (Some 0))
     (filter (\<lambda>j. j \<in> set tr) [0..<n]) (Some 1) = marked_series pk tr n"
  by (rule nth_equalityI) (simp_all add: assign_at_nth marked_series_def)

lemma np_where_marked:
  "np_where (map (\<lambda>x. x \<noteq> None) (marked_series pk tr n))
     = filter (\<lambda>j. j \<in> set pk \<union> set tr) [0..<n]"
  unfolding np_where_def marked_series_def
  by (rule filter_cong) auto

lemma phase_eval:
  "rsp_findpeaks_phase (signals_from_peakinfo info pidx n) =
     (let notnan = filter (\<lambda>j. j \<in> set (RSP_Peaks info) \<union> set (RSP_Troughs info)) [0..<n];
          series = marked_series (RSP_Peaks info) (RSP_Troughs info) n
      in if notnan = [] then Inl IndexError
         else Inr (take (last notnan) (fillna_pad series) @ drop (last notnan) series))"
  unfolding rsp_findpeaks_phase_def signals_columns bind_err_simps np_where_indicator
    marked_series_assign np_where_marked Let_def
  by (rule refl)


lemma marked_series_nth:
  "j < n \<Longrightarrow> marked_series pk tr n ! j
     = (if j \<in> set tr then Some 1 else if j \<in> set pk then Some 0 else None)"
  by (simp add: marked_series_def)

lemma length_marked_series [simp]: "length (marked_series pk tr n) = n"
  by (simp add: marked_series_def)

lemma set_marked_series: "set (marked_series pk tr n) \<subseteq> {None, Some 0, Some 1}"
  by (auto simp: marked_series_def)

lemma phase_series_props:
  fixes pk tr :: "nat list" and n :: nat
  defines "M \<equiv> set pk \<union> set tr"
  defines "S \<equiv> marked_series pk tr n"
  defines "L \<equiv> last (filter (\<lambda>j. j \<in> set pk \<union> set tr) [0..<n])"
  defines "R \<equiv> take L (fillna_pad S) @ drop L S"
  assumes ne: "filter (\<lambda>j. j \<in> set pk \<union> set tr) [0..<n] \<noteq> []"
    and rng: "\<forall>j\<in>set pk \<union> set tr. j < n"
    and dis: "set pk \<inter> set tr = {}"
  shows "M \<noteq> {}" and "Max M = L" and "L < n" and "length R = n"
    and "\<And>j. j < n \<Longrightarrow> L < j \<Longrightarrow> R ! j = None"
    and "\<And>j. Min M \<le> j \<Longrightarrow> j \<le> L \<Longrightarrow> R ! j \<in> {Some 0, Some 1}"
    and "\<And>j. j \<in> set pk \<Longrightarrow> R ! j = Some 0"
    and "\<And>j. j \<in> set tr \<Longrightarrow> R ! j = Some 1"
    and "\<And>j. Min M < j \<Longrightarrow> j < L \<Longrightarrow> j \<notin> M \<Longrightarrow> R ! j = R ! (j - 1)"
proof -
  from last_filter_upt [OF ne]
  have LM: "L \<in> M" and Ln: "L < n" and Lmax: "\<And>j. j < n \<Longrightarrow> j \<in> M \<Longrightarrow> j \<le> L"
    unfolding L_def M_def by blast+
  have fin: "finite M" by (simp add: M_def)
  show "M \<noteq> {}" using LM by blast
  have Mle: "\<And>j. j \<in> M \<Longrightarrow> j \<le> L" using Lmax rng unfolding M_def by blast
  show MaxL: "Max M = L" using fin LM Mle by (intro Max_eqI) auto
  show "L < n" by (rule Ln)
  have lenp: "length (fillna_pad S) = n" by (simp add: fillna_pad_def S_def)
  have lenS: "length S = n" by (simp add: S_def)
  show "length R = n" using Ln by (simp add: R_def lenp lenS)
  have lo: "\<And>j. j < L \<Longrightarrow> R ! j = fillna_pad S ! j"
    using Ln by (simp add: R_def nth_append lenp)
  have hi: "\<And>j. L \<le> j \<Longrightarrow> j < n \<Longrightarrow> R ! j = S ! j"
    using Ln by (simp add: R_def nth_append lenp lenS)
  have Sn: "\<And>j. j < n \<Longrightarrow> S ! j = (if j \<in> set tr then Some 1 else if j \<in> set pk then Some 0 else None)"
    unfolding S_def by (rule marked_series_nth)
  have keep: "\<And>j. j < L \<Longrightarrow> j \<in> M \<Longrightarrow> R ! j = S ! j"
  proof -
    fix j assume j: "j < L" "j \<in> M"
    then have "S ! j \<noteq> None" using Sn [of j] Ln by (auto simp: M_def)
    then have "fillna_pad S ! j = S ! j"
      unfolding fillna_pad_def using j Ln lenS by (intro pad_from_keep) auto
    then show "R ! j = S ! j" using lo j by simp
  qed
  have atM: "\<And>j. j \<in> M \<Longrightarrow> R ! j = S ! j"
  proof -
    fix j assume j: "j \<in> M"
    then have "j \<le> L" by (rule Mle)
    then show "R ! j = S ! j" using keep [of j] hi [of j] j Ln by (cases "j < L") auto
  qed
  show "\<And>j. j < n \<Longrightarrow> L < j \<Longrightarrow> R ! j = None"
  proof -
    fix j assume j: "j < n" "L < j"
    then have "j \<notin> M" using Mle [of j] by auto
    then have "S ! j = None" using Sn [OF j(1)] by (simp add: M_def)
    then show "R ! j = None" using hi [of j] j by simp
  qed
  show "\<And>j. j \<in> set pk \<Longrightarrow> R ! j = Some 0"
  proof -
    fix j assume j: "j \<in> set pk"
    then have "j \<in> M" "j < n" "j \<notin> set tr" using rng dis by (auto simp: M_def)
    then show "R ! j = Some 0" using atM [of j] Sn [of j] j by simp
  qed
  show "\<And>j. j \<in> set tr \<Longrightarrow> R ! j = Some 1"
  proof -
    fix j assume j: "j \<in> set tr"
    then have "j \<in> M" "j < n" using rng by (auto simp: M_def)
    then show "R ! j = Some 1" using atM [of j] Sn [of j] j by simp
  qed
  have MinM: "Min M \<in> M" using fin \<open>M \<noteq> {}\<close> by (rule Min_in)
  show "\<And>j. Min M \<le> j \<Longrightarrow> j \<le> L \<Longrightarrow> R ! j \<in> {Some 0, Some 1}"
  proof -
    fix j assume j: "Min M \<le> j" "j \<le> L"
    show "R ! j \<in> {Some 0, Some 1}"
    proof (cases "j < L")
      case True
      have mn: "Min M < n" using MinM rng by (auto simp: M_def)
      have "S ! Min M \<noteq> None" using Sn [OF mn] MinM by (auto simp: M_def)
      then have "fillna_pad S ! j \<noteq> None"
        unfolding fillna_pad_def using j True Ln lenS by (intro pad_from_defined) auto
      moreover have "fillna_pad S ! j \<in> insert None (set S)"
        unfolding fillna_pad_def using True Ln lenS by (intro pad_from_values) auto
      ultimately have "fillna_pad S ! j \<in> {Some 0, Some 1}"
        using set_marked_series [of pk tr n] unfolding S_def by auto
      then show ?thesis using lo [OF True] by simp
    next
      case False
      then have "j = L" using j by simp
      then show ?thesis using atM [OF LM] Sn [OF Ln] LM by (auto simp: M_def)
    qed
  qed
  show "\<And>j. Min M < j \<Longrightarrow> j < L \<Longrightarrow> j \<notin> M \<Longrightarrow> R ! j = R ! (j - 1)"
  proof -
    fix j assume j: "Min M < j" "j < L" "j \<notin> M"
    then have "S ! j = None" using Sn [of j] Ln by (simp add: M_def)
    then have "fillna_pad S ! j = fillna_pad S ! (j - 1)"
      unfolding fillna_pad_def using j Ln lenS by (intro pad_from_fill) auto
    then show "R ! j = R ! (j - 1)" using lo [of j] lo [of "j - 1"] j by simp
  qed
qed


lemma khodadad_marks:
  assumes "rsp_findpeaks_khodadad s thr = Inr info"
  shows "(\<forall>j\<in>set (RSP_Peaks info) \<union> set (RSP_Troughs info). j < length s)
       \<and> set (RSP_Peaks info) \<inter> set (RSP_Troughs info) = {}"
proof -
  from khodadad_extrema [OF assms] obtain e where
    e: "sorted_wrt (<) e" "\<forall>x\<in>set e. x < length s"
       "RSP_Peaks info = every_other (drop 1 e)" "RSP_Troughs info = every_other (butlast e)"
    by blast
  have "set (RSP_Peaks info) \<subseteq> set e"
    unfolding e(3) using set_every_other [of "drop 1 e"] set_drop_subset [of 1 e] by blast
  moreover have "set (RSP_Troughs info) \<subseteq> set e"
    unfolding e(4) using set_every_other [of "butlast e"] in_set_butlastD [of _ e] by blast
  ultimately have "\<forall>j\<in>set (RSP_Peaks info) \<union> set (RSP_Troughs info). j < length s"
    using e(2) by blast
  moreover have "set (RSP_Peaks info) \<inter> set (RSP_Troughs info) = {}"
    unfolding e(3,4) using e(1) by (rule peaks_troughs_disjoint)
  ultimately show ?thesis by blast
qed

lemma inspiration_column:
  "df_getitem (df_setitem (signals_from_peakinfo info pidx n) ''RSP_Inspiration'' c)
     ''RSP_Inspiration'' = Inr c"
  by (simp add: signals_from_peakinfo_def df_getitem_def)

text \<open>
  C8. Whenever the call succeeds, the "RSP_Inspiration" column is missing at every
  position after the last marked peak or trough index, and holds 0.0 or 1.0 at every
  position from the first marked index to the last: 0.0 at each peak, 1.0 at each
  trough, and the value of the position before at each unmarked position in between.
\<close>

theorem inspiration_phase:
  assumes "rsp_findpeaks x method outlier_threshold = Inr (signals, info)"
  shows "\<exists>inspiration.
           df_getitem signals ''RSP_Inspiration'' = Inr inspiration
         \<and> set (RSP_Peaks info) \<union> set (RSP_Troughs info) \<noteq> {}
         \<and> Max (set (RSP_Peaks info) \<union> set (RSP_Troughs info)) < length inspiration
         \<and> (\<forall>j < length inspiration.
               Max (set (RSP_Peaks info) \<union> set (RSP_Troughs info)) < j \<longrightarrow> inspiration ! j = None)
         \<and> (\<forall>j. Min (set (RSP_Peaks info) \<union> set (RSP_Troughs info)) \<le> j
                \<and> j \<le> Max (set (RSP_Peaks info) \<union> set (RSP_Troughs info))
                \<longrightarrow> inspiration ! j \<in> {Some 0, Some 1})
         \<and> (\<forall>j \<in> set (RSP_Peaks info). inspiration ! j = Some 0)
         \<and> (\<forall>j \<in> set (RSP_Troughs info). inspiration ! j = Some 1)
         \<and> (\<forall>j. Min (set (RSP_Peaks info) \<union> set (RSP_Troughs info)) < j
                \<and> j < Max (set (RSP_Peaks info) \<union> set (RSP_Troughs info))
                \<and> j \<notin> set (RSP_Peaks info) \<union> set (RSP_Troughs info)
                \<longrightarrow> inspiration ! j = inspiration ! (j - 1))"
proof -
  let ?pk = "RSP_Peaks info" and ?tr = "RSP_Troughs info"
  from rsp_findpeaks_Inr [OF assms] obtain cleaned thr' insp where
    k: "rsp_findpeaks_khodadad cleaned thr' = Inr info"
    and ph: "rsp_findpeaks_phase (signals_from_peakinfo info ?pk (length cleaned)) = Inr insp"
    and sg: "signals = df_setitem (signals_from_peakinfo info ?pk (length cleaned))
                         ''RSP_Inspiration'' insp"
    by blast
  let ?n = "length cleaned"
  let ?notnan = "filter (\<lambda>j. j \<in> set ?pk \<union> set ?tr) [0..<?n]"
  let ?S = "marked_series ?pk ?tr ?n"
  from khodadad_marks [OF k]
  have rng: "\<forall>j\<in>set ?pk \<union> set ?tr. j < ?n" and dis: "set ?pk \<inter> set ?tr = {}" by blast+
  from ph have ne: "?notnan \<noteq> []"
    and insp: "insp = take (last ?notnan) (fillna_pad ?S) @ drop (last ?notnan) ?S"
    by (auto simp: phase_eval Let_def split: if_splits)
  note P = phase_series_props [OF ne rng dis, folded insp]
  have col: "df_getitem signals ''RSP_Inspiration'' = Inr insp"
    unfolding sg by (rule inspiration_column)
  have a: "Max (set ?pk \<union> set ?tr) < length insp" using P(2,3,4) by simp
  have b: "\<forall>j < length insp. Max (set ?pk \<union> set ?tr) < j \<longrightarrow> insp ! j = None"
    using P(5) unfolding P(2) P(4) by blast
  have c: "\<forall>j. Min (set ?pk \<union> set ?tr) \<le> j \<and> j \<le> Max (set ?pk \<union> set ?tr)
             \<longrightarrow> insp ! j \<in> {Some 0, Some 1}"
    using P(6) unfolding P(2) by blast
  have d: "\<forall>j \<in> set ?pk. insp ! j = Some 0" using P(7) by blast
  have e: "\<forall>j \<in> set ?tr. insp ! j = Some 1" using P(8) by blast
  have f: "\<forall>j. Min (set ?pk \<union> set ?tr) < j \<and> j < Max (set ?pk \<union> set ?tr)
             \<and> j \<notin> set ?pk \<union> set ?tr \<longrightarrow> insp ! j = insp ! (j - 1)"
    using P(9) unfolding P(2) by blast
  from col P(1) a b c d e f show ?thesis by blast
qed

theorem inspiration_phase_witness:
  "rsp_findpeaks (Sequence [-1, -2, -1, 1, 3, 2, -1, -4, -2, 2, 5, 1, -1, -3, 2, 3, -1]) ''khodadad2018'' (3/10) =
     Inr ([(''RSP_Peaks'', [Some 0, Some 0, Some 0, Some 0, Some 0, Some 0, Some 0, Some 0, Some 0,
              Some 0, Some 1, Some 0, Some 0, Some 0, Some 0, Some 0, Some 0]),
          (''RSP_Troughs'', [Some 0, Some 0, Some 0, Some 0, Some 0, Some 0, Some 0, Some 1, Some 0,
              Some 0, Some 0, Some 0, Some 0, Some 0, Some 0, Some 0, Some 0]),
          (''RSP_Inspiration'', [None, None, None, None, None, None, None, Some 1, Some 1,
              Some 1, Some 0, None, None, None, None, None, None])],
          \<lparr>RSP_Peaks = [10], RSP_Troughs = [7]\<rparr>)
   \<and> (\<exists>inspiration.
           df_getitem ([(''RSP_Peaks'', [Some 0, Some 0, Some 0, Some 0, Some 0, Some 0, Some 0, Some 0, Some 0,
              Some 0, Some 1, Some 0, Some 0, Some 0, Some 0, Some 0, Some 0]),
          (''RSP_Troughs'', [Some 0, Some 0, Some 0, Some 0, Some 0, Some 0, Some 0, Some 1, Some 0,
              Some 0, Some 0, Some 0, Some 0, Some 0, Some 0, Some 0, Some 0]),
          (''RSP_Inspiration'', [None, None, None, None, None, None, None, Some 1, Some 1,
              Some 1, Some 0, None, None, None, None, None, None])] :: real option table) ''RSP_Inspiration'' = Inr inspiration
         \<and> set (RSP_Peaks \<lparr>RSP_Peaks = [10], RSP_Troughs = [7]\<rparr>) \<union> set (RSP_Troughs \<lparr>RSP_Peaks = [10], RSP_Troughs = [7]\<rparr>) \<noteq> {}
         \<and> Max (set (RSP_Peaks \<lparr>RSP_Peaks = [10], RSP_Troughs = [7]\<rparr>) \<union> set (RSP_Troughs \<lparr>RSP_Peaks = [10], RSP_Troughs = [7]\<rparr>)) < length inspiration
         \<and> (\<forall>j < length inspiration.
               Max (set (RSP_Peaks \<lparr>RSP_Peaks = [10], RSP_Troughs = [7]\<rparr>) \<union> set (RSP_Troughs \<lparr>RSP_Peaks = [10], RSP_Troughs = [7]\<rparr>)) < j \<longrightarrow> inspiration ! j = None)
         \<and> (\<forall>j. Min (set (RSP_Peaks \<lparr>RSP_Peaks = [10], RSP_Troughs = [7]\<rparr>) \<union> set (RSP_Troughs \<lparr>RSP_Peaks = [10], RSP_Troughs = [7]\<rparr>)) \<le> j
                \<and> j \<le> Max (set (RSP_Peaks \<lparr>RSP_Peaks = [10], RSP_Troughs = [7]\<rparr>) \<union> set (RSP_Troughs \<lparr>RSP_Peaks = [10], RSP_Troughs = [7]\<rparr>))
                \<longrightarrow> inspiration ! j \<in> {Some 0, Some 1})
         \<and> (\<forall>j \<in> set (RSP_Peaks \<lparr>RSP_Peaks = [10], RSP_Troughs = [7]\<rparr>). inspiration ! j = Some 0)
         \<and> (\<forall>j \<in> set (RSP_Troughs \<lparr>RSP_Peaks = [10], RSP_Troughs = [7]\<rparr>). inspiration ! j = Some 1)
         \<and> (\<forall>j. Min (set (RSP_Peaks \<lparr>RSP_Peaks = [10], RSP_Troughs = [7]\<rparr>) \<union> set (RSP_Troughs \<lparr>RSP_Peaks = [10], RSP_Troughs = [7]\<rparr>)) < j
                \<and> j < Max (set (RSP_Peaks \<lparr>RSP_Peaks = [10], RSP_Troughs = [7]\<rparr>) \<union> set (RSP_Troughs \<lparr>RSP_Peaks = [10], RSP_Troughs = [7]\<rparr>))
                \<and> j \<notin> set (RSP_Peaks \<lparr>RSP_Peaks = [10], RSP_Troughs = [7]\<rparr>) \<union> set (RSP_Troughs \<lparr>RSP_Peaks = [10], RSP_Troughs = [7]\<rparr>)
                \<longrightarrow> inspiration ! j = inspiration ! (j - 1)))"
proof -
  have h: "rsp_findpeaks (Sequence [-1, -2, -1, 1, 3, 2, -1, -4, -2, 2, 5, 1, -1, -3, 2, 3, -1]) ''khodadad2018'' (3/10) =
     Inr ([(''RSP_Peaks'', [Some 0, Some 0, Some 0, Some 0, Some 0, Some 0, Some 0, Some 0, Some 0,
              Some 0, Some 1, Some 0, Some 0, Some 0, Some 0, Some 0, Some 0]),
          (''RSP_Troughs'', [Some 0, Some 0, Some 0, Some 0, Some 0, Some 0, Some 0, Some 1, Some 0,
              Some 0, Some 0, Some 0, Some 0, Some 0, Some 0, Some 0, Some 0]),
          (''RSP_Inspiration'', [None, None, None, None, None, None, None, Some 1, Some 1,
              Some 1, Some 0, None, None, None, None, None, None])],
          \<lparr>RSP_Peaks = [10], RSP_Troughs = [7]\<rparr>)"
    by code_simp
  show ?thesis by (rule conjI [OF h inspiration_phase [OF h]])
qed

section \<open>Order of the orchestrator\<close>

lemma map_fst_pd_concat: "map fst (pd_concat a b) = map fst a @ map fst b"
  by (auto simp: pd_concat_def Let_def)

lemma channel_block_Inr:
  assumes "channel_block co process ch sr acc = Inr acc'"
  shows "\<exists>t i. channel_output co process ch sr = Inr (t, i)
           \<and> map fst (fst acc') = map fst (fst acc) @ map fst t
           \<and> snd acc' = snd acc ++ i"
proof (cases ch)
  case None
  with assms show ?thesis by (simp add: channel_block_def channel_output_def)
next
  case (Some x)
  with assms obtain y t i where
    "sanitize_input co x message = Inr y" "process y sr = Inr (t, i)"
    "acc' = (pd_concat (fst acc) t, snd acc ++ i)"
    by (auto simp: channel_block_def bind_err_Inr_iff)
  with Some show ?thesis
    by (simp add: channel_output_def map_fst_pd_concat)
qed

text \<open>
  C9. Whatever channels are supplied, a successful call has processed them in the order
  ECG, RSP, EDA, EMG and then appended the pass-through table: the column names of the
  merged table are those of the four channel tables in that order, followed by those
  of the pass-through table, and the merged info is the four channel mappings combined
  in that order, so that for a key held by several channels the value of the channel
  processed last is the one kept.
\<close>

theorem bio_process_order:
  assumes "bio_process co ecg rsp eda emg keep sampling_rate = Inr (bio_df, bio_info)"
    and "unpack ecg rsp eda emg keep = (ecg', rsp', eda', emg', keep')"
  shows "\<exists>t1 i1 t2 i2 t3 i3 t4 i4.
           channel_output co (ecg_process co) ecg' sampling_rate = Inr (t1, i1)
         \<and> channel_output co (rsp_process co) rsp' sampling_rate = Inr (t2, i2)
         \<and> channel_output co (eda_process co) eda' sampling_rate = Inr (t3, i3)
         \<and> channel_output co (emg_process co) emg' sampling_rate = Inr (t4, i4)
         \<and> map fst bio_df = map fst t1 @ map fst t2 @ map fst t3 @ map fst t4
                              @ (case keep' of None \<Rightarrow> [] | Some k \<Rightarrow> map fst k)
         \<and> bio_info = i1 ++ i2 ++ i3 ++ i4
         \<and> (\<forall>key. bio_info key =
               (case i4 key of Some v \<Rightarrow> Some v | None \<Rightarrow>
                case i3 key of Some v \<Rightarrow> Some v | None \<Rightarrow>
                case i2 key of Some v \<Rightarrow> Some v | None \<Rightarrow> i1 key))"
proof -
  from assms have "\<exists>a1 a2 a3 a4.
      channel_block co (ecg_process co) ecg' sampling_rate ([], Map.empty) = Inr a1
    \<and> channel_block co (rsp_process co) rsp' sampling_rate a1 = Inr a2
    \<and> channel_block co (eda_process co) eda' sampling_rate a2 = Inr a3
    \<and> channel_block co (emg_process co) emg' sampling_rate a3 = Inr a4
    \<and> (case keep' of None \<Rightarrow> Inr (fst a4, snd a4)
             | Some keep \<Rightarrow> Inr (pd_concat (fst a4) keep, snd a4))
           = (Inr (bio_df, bio_info) :: py_error + _)"
    by (simp add: bio_process_def bind_err_Inr_iff split_beta)
  then obtain a1 a2 a3 a4 where
    b1: "channel_block co (ecg_process co) ecg' sampling_rate ([], Map.empty) = Inr a1"
    and b2: "channel_block co (rsp_process co) rsp' sampling_rate a1 = Inr a2"
    and b3: "channel_block co (eda_process co) eda' sampling_rate a2 = Inr a3"
    and b4: "channel_block co (emg_process co) emg' sampling_rate a3 = Inr a4"
    and k: "(case keep' of None \<Rightarrow> Inr (fst a4, snd a4)
             | Some keep \<Rightarrow> Inr (pd_concat (fst a4) keep, snd a4))
           = (Inr (bio_df, bio_info) :: py_error + _)"
    by blast
  from channel_block_Inr [OF b1] obtain t1 i1 where
    c1: "channel_output co (ecg_process co) ecg' sampling_rate = Inr (t1, i1)"
    and d1: "map fst (fst a1) = map fst t1" "snd a1 = i1" by auto
  from channel_block_Inr [OF b2] obtain t2 i2 where
    c2: "channel_output co (rsp_process co) rsp' sampling_rate = Inr (t2, i2)"
    and d2: "map fst (fst a2) = map fst (fst a1) @ map fst t2" "snd a2 = snd a1 ++ i2" by auto
  from channel_block_Inr [OF b3] obtain t3 i3 where
    c3: "channel_output co (eda_process co) eda' sampling_rate = Inr (t3, i3)"
    and d3: "map fst (fst a3) = map fst (fst a2) @ map fst t3" "snd a3 = snd a2 ++ i3" by auto
  from channel_block_Inr [OF b4] obtain t4 i4 where
    c4: "channel_output co (emg_process co) emg' sampling_rate = Inr (t4, i4)"
    and d4: "map fst (fst a4) = map fst (fst a3) @ map fst t4" "snd a4 = snd a3 ++ i4" by auto
  from k have cols: "map fst bio_df = map fst (fst a4)
                       @ (case keep' of None \<Rightarrow> [] | Some k \<Rightarrow> map fst k)"
    and inf: "bio_info = snd a4"
    by (auto simp: map_fst_pd_concat split: option.splits)
  have e1: "map fst bio_df = map fst t1 @ map fst t2 @ map fst t3 @ map fst t4
              @ (case keep' of None \<Rightarrow> [] | Some k \<Rightarrow> map fst k)"
    by (simp add: cols d1 d2 d3 d4)
  have e2: "bio_info = i1 ++ i2 ++ i3 ++ i4"
    by (simp add: inf d1 d2 d3 d4)
  have e3: "\<forall>key. bio_info key =
               (case i4 key of Some v \<Rightarrow> Some v | None \<Rightarrow>
                case i3 key of Some v \<Rightarrow> Some v | None \<Rightarrow>
                case i2 key of Some v \<Rightarrow> Some v | None \<Rightarrow> i1 key)"
    unfolding e2 by (simp add: map_add_def split: option.splits)
  from c1 c2 c3 c4 e1 e2 e3 show ?thesis by blast
qed

theorem bio_process_order_witness:
  "bio_process demo (Some (Vector [Some 1, Some 2])) (Some [Some 3, Some 4]) (Some [Some 5, Some 6]) None (Some demo_keep) 100
     = Inr (demo_df, demo_info)
   \<and> unpack (Some (Vector [Some 1, Some 2])) (Some [Some 3, Some 4]) (Some [Some 5, Some 6]) None (Some demo_keep)
     = (Some [Some 1, Some 2], Some [Some 3, Some 4], Some [Some 5, Some 6], None, Some demo_keep)
   \<and> (\<exists>t1 i1 t2 i2 t3 i3 t4 i4.
           channel_output demo (ecg_process demo) (Some [Some 1, Some 2]) 100 = Inr (t1, i1)
         \<and> channel_output demo (rsp_process demo) (Some [Some 3, Some 4]) 100 = Inr (t2, i2)
         \<and> channel_output demo (eda_process demo) (Some [Some 5, Some 6]) 100 = Inr (t3, i3)
         \<and> channel_output demo (emg_process demo) None 100 = Inr (t4, i4)
         \<and> map fst demo_df = map fst t1 @ map fst t2 @ map fst t3 @ map fst t4
                              @ (case (Some demo_keep) of None \<Rightarrow> [] | Some k \<Rightarrow> map fst k)
         \<and> demo_info = i1 ++ i2 ++ i3 ++ i4
         \<and> (\<forall>key. demo_info key =
               (case i4 key of Some v \<Rightarrow> Some v | None \<Rightarrow>
                case i3 key of Some v \<Rightarrow> Some v | None \<Rightarrow>
                case i2 key of Some v \<Rightarrow> Some v | None \<Rightarrow> i1 key)))
   \<and> map fst demo_df = [''ECG_Raw'', ''RSP_Raw'', ''EDA_Raw'', ''Photosensor'']
   \<and> demo_info ''Rate'' = Some 3 \<and> demo_info ''ECG_Peaks'' = Some 5"
proof -
  have h1: "bio_process demo (Some (Vector [Some 1, Some 2])) (Some [Some 3, Some 4]) (Some [Some 5, Some 6]) None (Some demo_keep) 100
     = Inr (demo_df, demo_info)"
    by (simp add: bio_process_def unpack_def channel_block_def demo_def demo_keep_def
        demo_df_def demo_info_def pd_concat_def df_len_def pad_rows_def)
  have h2: "unpack (Some (Vector [Some 1, Some 2])) (Some [Some 3, Some 4]) (Some [Some 5, Some 6]) None (Some demo_keep)
     = (Some [Some 1, Some 2], Some [Some 3, Some 4], Some [Some 5, Some 6], None, Some demo_keep)"
    by (simp add: unpack_def)
  have h3: "map fst demo_df = [''ECG_Raw'', ''RSP_Raw'', ''EDA_Raw'', ''Photosensor'']"
    by (simp add: demo_df_def)
  have h4: "demo_info ''Rate'' = Some 3 \<and> demo_info ''ECG_Peaks'' = Some 5"
    by (simp add: demo_info_def)
  show ?thesis
    by (rule conjI [OF h1 conjI [OF h2 conjI [OF bio_process_order [OF h1 h2] conjI [OF h3 h4]]]])
qed

end
